theory Spec2Isabelle
  imports Main
begin

section \<open>Data model of the game sessions\<close>

text \<open>
  The router \<^verbatim>\<open>api_game.py\<close> keeps every game in a dict of dicts. Each dict shape is
  a record here; a key that the code reads with \<^verbatim>\<open>.get\<close> and that may be absent is an
  option field. An inventory or loot entry has the keys \<^verbatim>\<open>name\<close>, \<^verbatim>\<open>qty\<close> and
  \<^verbatim>\<open>count\<close>; the last two are written by different code paths, so either may be
  absent.
\<close>

record item =
  i_name :: string
  i_qty :: "int option"
  i_count :: "int option"

text \<open>The player dict, with the keys that \<^verbatim>\<open>start_game\<close> creates.\<close>

record player =
  p_name :: string
  p_health :: int
  p_max_health :: int
  p_xp :: int
  p_xp_to_next :: int
  p_level :: int
  p_credits :: int
  p_inventory :: "item list"
  p_plasma_durability :: int

text \<open>
  An enemy is named \<^verbatim>\<open>f"Raider L{level}"\<close>; the name is kept as the level it is
  formatted from.
\<close>

datatype enemy_name = RaiderL int

record enemy =
  e_id :: int
  e_name :: enemy_name
  e_health :: int
  e_max_health :: int
  e_attack :: int
  e_level :: int
  e_credit_reward :: int

record node =
  n_id :: string
  n_name :: string
  n_desc :: string

text \<open>
  The two texts that \<^verbatim>\<open>start_adventure\<close> appends to the session's message log.
\<close>

datatype message = PlasmaWarning | PlasmaBreaks

text \<open>
  A session: \<^verbatim>\<open>combat\<close> is \<^verbatim>\<open>None\<close> or \<^verbatim>\<open>{"enemies": [...]}\<close>; the key
  \<^verbatim>\<open>messages\<close> is absent until the first message is appended.
\<close>

record session =
  player :: player
  node :: node
  combat :: "enemy list option"
  unclaimed_loot :: "item list"
  messages :: "message list option"

section \<open>Scrap stacking helper\<close>

definition SCRAP_STACK_SIZE :: int where
  "SCRAP_STACK_SIZE = 64"

text \<open>\<^verbatim>\<open>item.get("qty", item.get("count", 0)) or 0\<close>\<close>

definition existing_qty :: "item \<Rightarrow> int" where
  "existing_qty i =
     (case i_qty i of Some q \<Rightarrow> q
      | None \<Rightarrow> (case i_count i of Some c \<Rightarrow> c | None \<Rightarrow> 0))"

text \<open>
  The \<^verbatim>\<open>for\<close> loop of \<^verbatim>\<open>add_stacked_item\<close>: it walks the inventory and tops up the
  stacks of the given name that are below the stack size. The second component is
  \<open>None\<close> when the loop hit \<^verbatim>\<open>return\<close>, and \<open>Some q\<close> when it ran to the end with
  \<open>q\<close> units left.
\<close>

fun fill_stacks :: "string \<Rightarrow> int \<Rightarrow> item list \<Rightarrow> item list \<times> int option" where
  "fill_stacks n q [] = ([], Some q)"
| "fill_stacks n q (i # ivt) =
     (if i_name i \<noteq> n then
        (let (ivt', r) = fill_stacks n q ivt in (i # ivt', r))
      else if existing_qty i \<ge> SCRAP_STACK_SIZE then
        (let (ivt', r) = fill_stacks n q ivt in (i # ivt', r))
      else
        (let space = SCRAP_STACK_SIZE - existing_qty i;
             add_now = min space q;
             new_qty = existing_qty i + add_now;
             i' = i\<lparr>i_qty := Some new_qty, i_count := Some new_qty\<rparr>;
             q' = q - add_now
         in if q' \<le> 0 then (i' # ivt, None)
            else (let (ivt', r) = fill_stacks n q' ivt in (i' # ivt', r))))"

text \<open>The \<^verbatim>\<open>while qty > 0\<close> loop: the new stacks that are appended.\<close>

function new_stacks :: "string \<Rightarrow> int \<Rightarrow> item list" where
  "new_stacks n q =
     (if q > 0 then
        (let add_now = min SCRAP_STACK_SIZE q
         in \<lparr>i_name = n, i_qty = Some add_now, i_count = Some add_now\<rparr>
            # new_stacks n (q - add_now))
      else [])"
  by pat_completeness auto
termination
  by (relation "measure (\<lambda>(n, q). nat q)") (auto simp: SCRAP_STACK_SIZE_def)

declare new_stacks.simps [simp del]

definition add_stacked_item :: "item list \<Rightarrow> string \<Rightarrow> int \<Rightarrow> item list" where
  "add_stacked_item inventory n q =
     (case fill_stacks n q inventory of
        (ivt', None) \<Rightarrow> ivt'
      | (ivt', Some r) \<Rightarrow> ivt' @ new_stacks n r)"

text \<open>A run of calls with the same item name, one per quantity of the list.\<close>

definition add_all :: "item list \<Rightarrow> string \<Rightarrow> int list \<Rightarrow> item list" where
  "add_all inventory n qs = fold (\<lambda>q ivt. add_stacked_item ivt n q) qs inventory"

text \<open>The units of a name that an inventory holds, over all of its stacks.\<close>

definition total_of :: "string \<Rightarrow> item list \<Rightarrow> int" where
  "total_of n ivt = sum_list (map existing_qty (filter (\<lambda>i. i_name i = n) ivt))"

definition others :: "string \<Rightarrow> item list \<Rightarrow> item list" where
  "others n ivt = filter (\<lambda>i. i_name i \<noteq> n) ivt"

text \<open>No stack of the name holds more than the stack size.\<close>

definition within_stack_size :: "string \<Rightarrow> item list \<Rightarrow> bool" where
  "within_stack_size n ivt =
     list_all (\<lambda>i. existing_qty i \<le> SCRAP_STACK_SIZE) (filter (\<lambda>i. i_name i = n) ivt)"

section \<open>Session lookup\<close>

datatype error = SessionNotFound | NoActiveCombat | InvalidEnemyId | OverflowError

text \<open>
  Every handler starts with \<^verbatim>\<open>if session_id not in sessions: raise HTTPException(404)\<close>
  and then works on \<^verbatim>\<open>sessions[session_id]\<close>. The handlers below are functions of the
  session that this lookup finds; they return the session as the call leaves it.
\<close>

definition lookup_session :: "(string \<rightharpoonup> session) \<Rightarrow> string \<Rightarrow> error + session" where
  "lookup_session sessions session_id =
     (case sessions session_id of None \<Rightarrow> Inl SessionNotFound | Some s \<Rightarrow> Inr s)"

section \<open>The command route: depositing scrap\<close>

text \<open>
  The replies of \<^verbatim>\<open>run_command\<close>: \<^verbatim>\<open>{"ok": False, "msg": "Invalid scrap type."}\<close>,
  \<^verbatim>\<open>{"ok": True, "msg": f"Deposited {total} {scrap_type} for {total * rate} credits."}\<close>,
  and the normalised result of the external command interpreter with the keys
  \<^verbatim>\<open>ok\<close>, \<^verbatim>\<open>msg\<close>, \<^verbatim>\<open>error\<close> and \<^verbatim>\<open>player\<close>.
\<close>

datatype command_reply =
    InvalidScrapType
  | Deposited int string int
  | Normalized bool string "string option" player

text \<open>
  The result dict of \<^verbatim>\<open>execute_command_simple\<close>, which is imported from a module that
  is not part of this file; the interpreter is a parameter of \<^verbatim>\<open>run_command\<close>.
\<close>

record exec_result =
  x_ok :: "bool option"
  x_msg :: "string option"
  x_player :: "player option"

definition run_command ::
  "(string \<Rightarrow> string list \<Rightarrow> session \<Rightarrow> session \<times> exec_result) \<Rightarrow>
   session \<Rightarrow> string \<Rightarrow> string list option \<Rightarrow> session \<times> command_reply" where
  "run_command execute_command_simple s command args =
     (if command = ''deposit_scrap'' then
        (let scrap_type = (case args of Some (a # _) \<Rightarrow> Some a | _ \<Rightarrow> None) in
         case scrap_type of
           None \<Rightarrow> (s, InvalidScrapType)
         | Some t \<Rightarrow>
             if t \<notin> set [''Scrap'', ''Iron Scrap''] then (s, InvalidScrapType)
             else
               (let rate = (if t = ''Scrap'' then 2 else 5);
                    total = sum_list (map existing_qty
                              (filter (\<lambda>i. i_name i = t) (p_inventory (player s))));
                    p1 = (player s)\<lparr>p_inventory :=
                            filter (\<lambda>i. i_name i \<noteq> t) (p_inventory (player s))\<rparr>;
                    p2 = p1\<lparr>p_credits := p_credits p1 + total * rate\<rparr>
                in (s\<lparr>player := p2\<rparr>, Deposited total t (total * rate))))
      else
        (let (s', result) =
               execute_command_simple command (case args of None \<Rightarrow> [] | Some a \<Rightarrow> a) s;
             ok = (case x_ok result of None \<Rightarrow> False | Some b \<Rightarrow> b);
             msg = (case x_msg result of None \<Rightarrow> [] | Some m \<Rightarrow> m)
         in (s', Normalized ok msg
                   (if x_ok result = Some True then None else Some msg)
                   (case x_player result of None \<Rightarrow> player s' | Some p \<Rightarrow> p))))"

section \<open>Healing\<close>

text \<open>\<^verbatim>\<open>{"message": f"Healed for {amount}", "player": player}\<close>\<close>

datatype heal_reply = Healed int

definition heal_player :: "session \<Rightarrow> session \<times> heal_reply" where
  "heal_player s =
     (let amount = 15;
          p = (player s)\<lparr>p_health :=
                 min (p_max_health (player s)) (p_health (player s) + amount)\<rparr>
      in (s\<lparr>player := p\<rparr>, Healed amount))"

section \<open>The shop\<close>

definition PRICES :: "(string \<times> int) list" where
  "PRICES =
     [(''Medpack'', 25),
      (''Nano Repair Kit'', 50),
      (''Energy Cell'', 10),
      (''Charge Cell'', 5),
      (''Armor'', 80),
      (''Energy Shield'', 100),
      (''Weapon'', 60),
      (''Blaster'', 90),
      (''Plasma Blaster'', 90)]"

text \<open>
  The replies of \<^verbatim>\<open>shop_buy\<close>: \<^verbatim>\<open>f"{name} cannot be bought here."\<close>,
  \<^verbatim>\<open>"Not enough credits."\<close> (both with \<^verbatim>\<open>"ok": False\<close>) and
  \<^verbatim>\<open>f"Purchased {name} for {cost} credits!"\<close>.
\<close>

datatype shop_reply = CannotBeBought string | NotEnoughCredits | Purchased string int

definition shop_buy :: "session \<Rightarrow> string \<Rightarrow> session \<times> shop_reply" where
  "shop_buy s item_name =
     (case map_of PRICES item_name of
        None \<Rightarrow> (s, CannotBeBought item_name)
      | Some cost \<Rightarrow>
          if p_credits (player s) < cost then (s, NotEnoughCredits)
          else
            (let p1 = (player s)\<lparr>p_credits := p_credits (player s) - cost\<rparr>;
                 ivt = p_inventory p1 @ [\<lparr>i_name = item_name, i_qty = Some 1, i_count = None\<rparr>];
                 p2 = (if item_name = ''Plasma Blaster''
                       then p1\<lparr>p_plasma_durability := 2\<rparr> else p1);
                 p3 = p2\<lparr>p_inventory := ivt\<rparr>
             in (s\<lparr>player := p3\<rparr>, Purchased item_name cost)))"

section \<open>Searching\<close>

definition MAX_INVENTORY_SLOTS :: nat where
  "MAX_INVENTORY_SLOTS = 6"

definition loot_table :: "(string \<times> int) list" where
  "loot_table =
     [(''Scrap'', 1), (''Iron Scrap'', 1), (''Energy Cell'', 1),
      (''Nano Repair Kit'', 1), (''Medpack'', 1)]"

datatype search_msg = InventoryIsFull | FoundScraps

record search_reply =
  s_ok :: bool
  s_msg :: search_msg
  s_items :: "item list"
  s_credits_gained :: int

text \<open>
  The loop over the rolls. The random draws are inputs: the list holds one draw of
  \<^verbatim>\<open>random.choice(loot_table)\<close> per roll, as a position in the table (read modulo its
  length), so the length of the list is the number of rolls, which is 1 or 2. The result
  is the inventory and \<^verbatim>\<open>found_items\<close>.
\<close>

fun search_rolls :: "item list \<Rightarrow> nat list \<Rightarrow> item list \<times> item list" where
  "search_rolls inventory [] = (inventory, [])"
| "search_rolls inventory (choice # choices) =
     (if length inventory \<ge> MAX_INVENTORY_SLOTS then (inventory, [])
      else
        (let (n, q) = loot_table ! (choice mod length loot_table);
             (inventory', found) = search_rolls (add_stacked_item inventory n q) choices
         in (inventory', \<lparr>i_name = n, i_qty = Some q, i_count = None\<rparr> # found)))"

text \<open>
  \<^verbatim>\<open>search\<close>, with the draws of the rolls and the draw of \<^verbatim>\<open>random.randint(5, 25)\<close>
  as inputs.
\<close>

definition search :: "session \<Rightarrow> nat list \<Rightarrow> int \<Rightarrow> session \<times> search_reply" where
  "search s choices credits_gain =
     (let inventory = p_inventory (player s) in
      if length inventory \<ge> MAX_INVENTORY_SLOTS then
        (s, \<lparr>s_ok = False, s_msg = InventoryIsFull, s_items = [], s_credits_gained = 0\<rparr>)
      else
        (let (inventory', found_items) = search_rolls inventory choices;
             p1 = (player s)\<lparr>p_credits := p_credits (player s) + credits_gain\<rparr>;
             p2 = p1\<lparr>p_inventory := inventory'\<rparr>
         in (s\<lparr>player := p2\<rparr>,
             \<lparr>s_ok = True, s_msg = FoundScraps, s_items = found_items,
              s_credits_gained = credits_gain\<rparr>)))"

section \<open>Starting an encounter\<close>

definition append_message :: "session \<Rightarrow> message \<Rightarrow> session" where
  "append_message s m =
     s\<lparr>messages := Some ((case messages s of None \<Rightarrow> [] | Some ms \<Rightarrow> ms) @ [m])\<rparr>"

text \<open>
  The Plasma Blaster durability block at the head of \<^verbatim>\<open>start_adventure\<close>: two
  \<^verbatim>\<open>if\<close> statements in a row under the test that the weapon is in the inventory.
\<close>

definition plasma_durability_rule :: "session \<Rightarrow> session" where
  "plasma_durability_rule s =
     (if list_ex (\<lambda>i. i_name i = ''Plasma Blaster'') (p_inventory (player s)) then
        (let s1 = (if p_plasma_durability (player s) = 1
                   then append_message s PlasmaWarning else s)
         in if p_plasma_durability (player s1) > 0 then
              (let p1 = (player s1)\<lparr>p_plasma_durability :=
                           p_plasma_durability (player s1) - 1\<rparr>
               in if p_plasma_durability p1 = 0 then
                    append_message
                      (s1\<lparr>player := p1\<lparr>p_inventory :=
                          filter (\<lambda>i. i_name i \<noteq> ''Plasma Blaster'') (p_inventory p1)\<rparr>\<rparr>)
                      PlasmaBreaks
                  else s1\<lparr>player := p1\<rparr>)
            else s1)
      else s)"

definition make_enemy :: "nat \<Rightarrow> int \<Rightarrow> enemy" where
  "make_enemy i level =
     (let max_hp = 40 + level * 10
      in \<lparr>e_id = int i, e_name = RaiderL level, e_health = max_hp, e_max_health = max_hp,
          e_attack = 8 + level * 2, e_level = level, e_credit_reward = 10 + level * 5\<rparr>)"

record adventure_reply =
  a_enemies :: "enemy list"
  a_loot :: "item list"

text \<open>
  \<^verbatim>\<open>start_adventure\<close>. The random draws are inputs: the levels drawn for the enemies
  (as many as \<^verbatim>\<open>enemy_count\<close>, which is 1 or 2, each the player's level or one more)
  and the three loot counts (credits in 20..60, scrap in 1..4, iron scrap in 0..2).
\<close>

definition start_adventure ::
  "session \<Rightarrow> int list \<Rightarrow> int \<Rightarrow> int \<Rightarrow> int \<Rightarrow> session \<times> adventure_reply" where
  "start_adventure s levels credits_count scrap_count iron_count =
     (let s1 = plasma_durability_rule s;
          enemies = map (\<lambda>(i, level). make_enemy i level) (enumerate 0 levels);
          loot = [\<lparr>i_name = ''Credits'', i_qty = None, i_count = Some credits_count\<rparr>,
                  \<lparr>i_name = ''Scrap'', i_qty = None, i_count = Some scrap_count\<rparr>,
                  \<lparr>i_name = ''Iron Scrap'', i_qty = None, i_count = Some iron_count\<rparr>]
      in (s1\<lparr>combat := Some enemies, unclaimed_loot := loot\<rparr>,
          \<lparr>a_enemies = enemies, a_loot = loot\<rparr>))"

section \<open>Resolving an attack\<close>

subsection \<open>The product \<^verbatim>\<open>int(player_attack * 0.40)\<close> in double precision\<close>

text \<open>
  Python converts the integer to a double, multiplies it by the double nearest to 0.40 and
  truncates the product. The conversion and the product are both rounded to 53
  significant bits, ties to even. Rounding to 53 significant bits commutes with scaling by
  a power of two, so the model rounds natural numbers: \<open>round53 p\<close> is \<open>p\<close> rounded
  to 53 significant bits, and the product is rounded as its numerator over \<open>2 ^ 53\<close>.
\<close>

fun bit_length :: "nat \<Rightarrow> nat" where
  "bit_length n = (if n = 0 then 0 else Suc (bit_length (n div 2)))"

declare bit_length.simps [simp del]

definition round53 :: "nat \<Rightarrow> nat" where
  "round53 p =
     (if bit_length p \<le> 53 then p
      else
        (let sh = bit_length p - 53;
             q = p div 2 ^ sh;
             r = p mod 2 ^ sh;
             half = 2 ^ (sh - 1);
             q' = (if r > half \<or> (r = half \<and> odd q) then q + 1 else q)
         in q' * 2 ^ sh))"

text \<open>The double nearest to 0.40 is \<open>DOUBLE_0_40 / 2 ^ 53\<close>.\<close>

definition DOUBLE_0_40 :: nat where
  "DOUBLE_0_40 = 3602879701896397"

text \<open>
  \<^verbatim>\<open>int(player_attack * 0.40)\<close>: the conversion of an integer that rounds to
  \<open>2 ^ 1024\<close> or more raises \<^verbatim>\<open>OverflowError\<close>; \<^verbatim>\<open>int\<close> truncates towards zero.
\<close>

definition int_of_times_0_40 :: "int \<Rightarrow> error + int" where
  "int_of_times_0_40 a =
     (let x = round53 (nat \<bar>a\<bar>) in
      if x \<ge> 2 ^ 1024 then Inl OverflowError
      else
        (let v = int (round53 (x * DOUBLE_0_40) div 2 ^ 53)
         in Inr (if a < 0 then - v else v)))"

subsection \<open>The handler\<close>

text \<open>
  The event texts: \<^verbatim>\<open>f"You strike {name} for {dmg} damage."\<close>,
  \<^verbatim>\<open>f"{name} is defeated!"\<close>, \<^verbatim>\<open>f"You loot {credit_reward} credits from {name}."\<close>,
  \<^verbatim>\<open>f"{name} hits you for {edmg} damage."\<close> and \<^verbatim>\<open>"You were defeated!"\<close>.
\<close>

datatype event =
    Strike enemy_name int
  | IsDefeated enemy_name
  | Loot int enemy_name
  | Hits enemy_name int
  | YouWereDefeated

text \<open>
  The two reply shapes of \<^verbatim>\<open>attack_enemy\<close>: the key \<^verbatim>\<open>player_dead\<close> is present (and
  true) only in the reply of the player's death, which has no key \<^verbatim>\<open>loot\<close>.
\<close>

record attack_reply =
  r_events :: "event list"
  r_combat_won :: bool
  r_player_dead :: bool
  r_enemies :: "enemy list"
  r_loot :: "item list option"

text \<open>The index of the first enemy with the id, the loop over \<^verbatim>\<open>enumerate(enemies)\<close>.\<close>

fun target_index :: "enemy list \<Rightarrow> int \<Rightarrow> nat option" where
  "target_index [] enemy_id = None"
| "target_index (e # es) enemy_id =
     (if e_id e = enemy_id then Some 0 else map_option Suc (target_index es enemy_id))"

text \<open>
  \<^verbatim>\<open>attack_enemy\<close>. The draw of \<^verbatim>\<open>random.choice(enemies)\<close> is the input \<open>choice\<close>,
  read modulo the length of the roster. An \<^verbatim>\<open>OverflowError\<close> of the float product
  is raised after the strike has been applied, so the session is returned with the error.
\<close>

definition attack_enemy ::
  "session \<Rightarrow> int \<Rightarrow> int \<Rightarrow> nat \<Rightarrow> session \<times> (error + attack_reply)" where
  "attack_enemy s enemy_id attack choice =
     (case combat s of
        None \<Rightarrow> (s, Inl NoActiveCombat)
      | Some enemies \<Rightarrow>
          (case target_index enemies enemy_id of
             None \<Rightarrow> (s, Inl InvalidEnemyId)
           | Some ti \<Rightarrow>
               (let dmg = attack;
                    enemy = (enemies ! ti)\<lparr>e_health := max 0 (e_health (enemies ! ti) - dmg)\<rparr>;
                    events1 = [Strike (e_name enemy) dmg];
                    dead = (e_health enemy \<le> 0);
                    credit_reward = e_credit_reward enemy;
                    p1 = (if dead \<and> credit_reward > 0
                          then (player s)\<lparr>p_credits := p_credits (player s) + credit_reward\<rparr>
                          else player s);
                    events2 = (if dead then
                                 events1 @ [IsDefeated (e_name enemy)]
                                 @ (if credit_reward > 0
                                    then [Loot credit_reward (e_name enemy)] else [])
                               else events1);
                    enemies1 = (if dead then take ti enemies @ drop (Suc ti) enemies
                                else enemies[ti := enemy])
                in if enemies1 \<noteq> [] then
                     (let chosen = enemies1 ! (choice mod length enemies1) in
                      case int_of_times_0_40 attack of
                        Inl err \<Rightarrow> (s\<lparr>player := p1, combat := Some enemies1\<rparr>, Inl err)
                      | Inr v \<Rightarrow>
                          (let edmg = max 4 v;
                               p2 = p1\<lparr>p_health := max 0 (p_health p1 - edmg)\<rparr>;
                               events3 = events2 @ [Hits (e_name chosen) edmg];
                               s' = s\<lparr>player := p2, combat := Some enemies1\<rparr>
                           in if p_health p2 \<le> 0 then
                                (s', Inr \<lparr>r_events = events3 @ [YouWereDefeated],
                                          r_combat_won = False, r_player_dead = True,
                                          r_enemies = enemies1, r_loot = None\<rparr>)
                              else
                                (s', Inr \<lparr>r_events = events3, r_combat_won = False,
                                          r_player_dead = False, r_enemies = enemies1,
                                          r_loot = Some []\<rparr>)))
                   else
                     (s\<lparr>player := p1, combat := None\<rparr>,
                      Inr \<lparr>r_events = events2, r_combat_won = True, r_player_dead = False,
                           r_enemies = enemies1, r_loot = Some (unclaimed_loot s)\<rparr>))))"

text \<open>
  A sequence of calls on one session, each with its enemy id, attack and draw; the
  replies are collected in order.
\<close>

fun attack_calls ::
  "session \<Rightarrow> (int \<times> int \<times> nat) list \<Rightarrow> session \<times> (error + attack_reply) list" where
  "attack_calls s [] = (s, [])"
| "attack_calls s ((enemy_id, attack, choice) # calls) =
     (let (s1, reply) = attack_enemy s enemy_id attack choice;
          (s2, replies) = attack_calls s1 calls
      in (s2, reply # replies))"

text \<open>The damages of the counter-attacks that an event log reports, in order.\<close>

fun counter_attacks :: "event list \<Rightarrow> int list" where
  "counter_attacks [] = []"
| "counter_attacks (Hits n d # evs) = d # counter_attacks evs"
| "counter_attacks (ev # evs) = counter_attacks evs"

text \<open>
  Every enemy of the roster has health above 0, as \<^verbatim>\<open>start_adventure\<close> creates them.
\<close>

definition alive :: "session \<Rightarrow> bool" where
  "alive s =
     (case combat s of None \<Rightarrow> True
      | Some enemies \<Rightarrow> list_all (\<lambda>e. 0 < e_health e) enemies)"

section \<open>Claiming loot\<close>

text \<open>\<^verbatim>\<open>item.get("qty", item.get("count", 1))\<close>\<close>

definition loot_qty :: "item \<Rightarrow> int" where
  "loot_qty i =
     (case i_qty i of Some q \<Rightarrow> q
      | None \<Rightarrow> (case i_count i of Some c \<Rightarrow> c | None \<Rightarrow> 1))"

text \<open>One round of the loop of \<^verbatim>\<open>claim_loot\<close> over the manifest.\<close>

definition take_loot :: "player \<Rightarrow> item \<Rightarrow> player" where
  "take_loot p i =
     (let n = i_name i; q = loot_qty i in
      if n = ''Credits'' then p\<lparr>p_credits := p_credits p + q\<rparr>
      else if n \<in> set [''Scrap'', ''Iron Scrap'']
           then p\<lparr>p_inventory := add_stacked_item (p_inventory p) n q\<rparr>
      else p\<lparr>p_inventory := p_inventory p @ [\<lparr>i_name = n, i_qty = Some q, i_count = None\<rparr>]\<rparr>)"

text \<open>\<^verbatim>\<open>claim_loot\<close>; the second component is the \<^verbatim>\<open>claimed\<close> list of the reply.\<close>

definition claim_loot :: "session \<Rightarrow> session \<times> item list" where
  "claim_loot s =
     (let loot = unclaimed_loot s;
          p = foldl take_loot (player s) loot
      in (s\<lparr>player := p, unclaimed_loot := []\<rparr>, loot))"

text \<open>
  The units that a manifest lists under a name, and the stack that \<^verbatim>\<open>claim_loot\<close>
  appends for an entry that is neither credits nor scrap:
  \<^verbatim>\<open>{"name": name, "qty": qty}\<close>.
\<close>

definition loot_total :: "string \<Rightarrow> item list \<Rightarrow> int" where
  "loot_total n loot = sum_list (map loot_qty (filter (\<lambda>i. i_name i = n) loot))"

definition loot_stack :: "item \<Rightarrow> item" where
  "loot_stack i = \<lparr>i_name = i_name i, i_qty = Some (loot_qty i), i_count = None\<rparr>"

section \<open>Sample data\<close>

text \<open>The session that \<^verbatim>\<open>start_game\<close> creates.\<close>

definition new_player :: player where
  "new_player =
     \<lparr>p_name = ''Traveler'', p_health = 100, p_max_health = 100, p_xp = 0,
      p_xp_to_next = 50, p_level = 1, p_credits = 0, p_inventory = [],
      p_plasma_durability = 0\<rparr>"

definition new_session :: session where
  "new_session =
     \<lparr>player = new_player,
      node = \<lparr>n_id = ''terra'', n_name = ''Terra'',
              n_desc = ''The home planet. Your journey begins here.''\<rparr>,
      combat = None, unclaimed_loot = [], messages = None\<rparr>"

definition stack :: "string \<Rightarrow> int \<Rightarrow> item" where
  "stack n q = \<lparr>i_name = n, i_qty = Some q, i_count = None\<rparr>"

text \<open>
  The fallback \<^verbatim>\<open>execute_command_simple\<close> that the module defines when the import
  of the command interpreter fails.
\<close>

definition command_not_available ::
  "string \<Rightarrow> string list \<Rightarrow> session \<Rightarrow> session \<times> exec_result" where
  "command_not_available command args s =
     (s, \<lparr>x_ok = Some False, x_msg = Some ''Command execution not available'',
          x_player = None\<rparr>)"

text \<open>A player with six stacks, one with scrap in three stacks, one with the last
  charge of the Plasma Blaster, and an encounter with two raiders.\<close>

definition full_session :: session where
  "full_session =
     new_session\<lparr>player := new_player\<lparr>p_credits := 40, p_inventory :=
        [stack ''Medpack'' 1, stack ''Medpack'' 1, stack ''Energy Cell'' 1,
         stack ''Armor'' 1, stack ''Weapon'' 1, stack ''Scrap'' 12]\<rparr>\<rparr>"

definition scrap_session :: session where
  "scrap_session =
     new_session\<lparr>player := new_player\<lparr>p_credits := 7, p_inventory :=
        [stack ''Scrap'' 64, stack ''Medpack'' 1,
         \<lparr>i_name = ''Iron Scrap'', i_qty = None, i_count = Some 3\<rparr>,
         stack ''Scrap'' 6]\<rparr>\<rparr>"

text \<open>The player with scrap, with an unclaimed manifest of 30 credits, 2 scrap, 0 iron
  scrap and a Medpack without a quantity.\<close>

definition loot_session :: session where
  "loot_session =
     scrap_session\<lparr>unclaimed_loot :=
        [\<lparr>i_name = ''Credits'', i_qty = None, i_count = Some 30\<rparr>,
         \<lparr>i_name = ''Scrap'', i_qty = None, i_count = Some 2\<rparr>,
         \<lparr>i_name = ''Iron Scrap'', i_qty = None, i_count = Some 0\<rparr>,
         \<lparr>i_name = ''Medpack'', i_qty = None, i_count = None\<rparr>]\<rparr>"

definition last_charge_session :: session where
  "last_charge_session =
     new_session\<lparr>player := new_player\<lparr>p_inventory := [stack ''Plasma Blaster'' 1],
        p_plasma_durability := 1\<rparr>\<rparr>"

definition raid_loot :: "item list" where
  "raid_loot =
     [\<lparr>i_name = ''Credits'', i_qty = None, i_count = Some 30\<rparr>,
      \<lparr>i_name = ''Scrap'', i_qty = None, i_count = Some 2\<rparr>,
      \<lparr>i_name = ''Iron Scrap'', i_qty = None, i_count = Some 0\<rparr>]"

definition two_raiders :: session where
  "two_raiders =
     new_session\<lparr>combat := Some [make_enemy 0 1, make_enemy 1 2],
        unclaimed_loot := raid_loot\<rparr>"

text \<open>The reply to the attack that defeats the second raider.\<close>

definition raid_victory :: attack_reply where
  "raid_victory =
     \<lparr>r_events = [Strike (RaiderL 2) 60, IsDefeated (RaiderL 2), Loot 20 (RaiderL 2)],
      r_combat_won = True, r_player_dead = False, r_enemies = [],
      r_loot = Some raid_loot\<rparr>"

definition two_stacks :: "item list" where
  "two_stacks =
     [stack ''Scrap'' 60, \<lparr>i_name = ''Iron Scrap'', i_qty = None, i_count = Some 3\<rparr>]"

section \<open>Stacking\<close>

lemma existing_qty_update [simp]:
  "existing_qty (i\<lparr>i_qty := Some v, i_count := c\<rparr>) = v"
  by (simp add: existing_qty_def)

lemma fill_stacks_others:
  "others n (fst (fill_stacks n q ivt)) = others n ivt"
  by (induction ivt arbitrary: q) (auto simp: others_def Let_def split_beta)

lemma fill_stacks_within:
  "within_stack_size n ivt \<Longrightarrow> within_stack_size n (fst (fill_stacks n q ivt))"
  by (induction ivt arbitrary: q)
     (auto simp: within_stack_size_def Let_def split_beta SCRAP_STACK_SIZE_def)

lemma fill_stacks_total:
  "total_of n (fst (fill_stacks n q ivt))
     + (case snd (fill_stacks n q ivt) of None \<Rightarrow> 0 | Some r \<Rightarrow> r)
   = total_of n ivt + q"
proof (induction ivt arbitrary: q)
  case Nil
  show ?case by (simp add: total_of_def)
next
  case (Cons a ivt)
  show ?case
    using Cons.IH [of q] Cons.IH [of "q - (SCRAP_STACK_SIZE - existing_qty a)"]
    by (auto simp: total_of_def Let_def split_beta SCRAP_STACK_SIZE_def split: option.splits)
qed

lemma fill_stacks_left:
  "0 < q \<Longrightarrow> snd (fill_stacks n q ivt) = Some r \<Longrightarrow> 0 < r"
proof (induction ivt arbitrary: q)
  case Nil
  then show ?case by simp
next
  case (Cons a ivt)
  show ?case
    using Cons.prems Cons.IH [of q] Cons.IH [of "q - (SCRAP_STACK_SIZE - existing_qty a)"]
    by (auto simp: Let_def split_beta SCRAP_STACK_SIZE_def split: if_splits)
qed

lemma new_stacks_others: "others n (new_stacks n q) = []"
  by (induction n q rule: new_stacks.induct)
     (subst new_stacks.simps, simp add: others_def Let_def)

lemma new_stacks_within: "within_stack_size n (new_stacks n q)"
  by (induction n q rule: new_stacks.induct)
     (subst new_stacks.simps,
      simp add: within_stack_size_def Let_def existing_qty_def SCRAP_STACK_SIZE_def)

lemma new_stacks_total: "0 \<le> q \<Longrightarrow> total_of n (new_stacks n q) = q"
  by (induction n q rule: new_stacks.induct)
     (subst new_stacks.simps,
      auto simp add: total_of_def Let_def existing_qty_def SCRAP_STACK_SIZE_def)

lemma add_stacked_item_others: "others n (add_stacked_item ivt n q) = others n ivt"
  using fill_stacks_others [of n q ivt]
  by (auto simp: add_stacked_item_def others_def new_stacks_others [unfolded others_def]
           split: prod.splits option.splits)

lemma add_stacked_item_within:
  "within_stack_size n ivt \<Longrightarrow> within_stack_size n (add_stacked_item ivt n q)"
  using fill_stacks_within [of n ivt q] new_stacks_within
  by (auto simp: add_stacked_item_def within_stack_size_def split: prod.splits option.splits)

lemma add_stacked_item_total:
  "0 < q \<Longrightarrow> total_of n (add_stacked_item ivt n q) = total_of n ivt + q"
  using fill_stacks_total [of n q ivt] fill_stacks_left [of q n ivt]
  by (auto simp: add_stacked_item_def total_of_def new_stacks_total [unfolded total_of_def]
           split: prod.splits option.splits)

text \<open>
  C1, amended. For every inventory and every sequence of \<^verbatim>\<open>add_stacked_item\<close> calls
  with the same name and positive quantities: if no stack of the name holds more than 64
  units before the calls, none does after them; the units of the name are the units
  before plus the sum of the quantities; and the stacks of the other names are the same
  as before, in the same order.
\<close>

theorem add_stacked_item_calls:
  assumes "\<forall>q\<in>set qs. 0 < q"
  shows "(within_stack_size n inventory \<longrightarrow> within_stack_size n (add_all inventory n qs)) \<and>
         total_of n (add_all inventory n qs) = total_of n inventory + sum_list qs \<and>
         others n (add_all inventory n qs) = others n inventory"
  using assms unfolding add_all_def
  by (induction qs arbitrary: inventory)
     (simp_all add: add_stacked_item_others add_stacked_item_within add_stacked_item_total)

text \<open>
  The theorem at an inventory with a stack of 60 scrap, for the calls with 70 and 5: the
  first stack is filled to 64 and two stacks, of 64 and 7, are appended.
\<close>

theorem add_stacked_item_calls_witness:
  "within_stack_size ''Scrap'' (add_all two_stacks ''Scrap'' [70, 5]) \<and>
   total_of ''Scrap'' (add_all two_stacks ''Scrap'' [70, 5])
     = total_of ''Scrap'' two_stacks + sum_list [70, 5] \<and>
   others ''Scrap'' (add_all two_stacks ''Scrap'' [70, 5]) = others ''Scrap'' two_stacks"
proof -
  have pos: "\<forall>q\<in>set [70, 5 :: int]. 0 < q"
    by simp
  have ok: "within_stack_size ''Scrap'' two_stacks"
    by (simp add: two_stacks_def stack_def within_stack_size_def existing_qty_def
          SCRAP_STACK_SIZE_def)
  from add_stacked_item_calls [OF pos, of "''Scrap''" two_stacks] ok show ?thesis
    by blast
qed

text \<open>
  C1 as stated fails for an inventory that already holds a stack above the stack size:
  the loop skips it (\<^verbatim>\<open>if existing_qty >= SCRAP_STACK_SIZE: continue\<close>), so the stack
  of 100 is still there after one unit has been added.
\<close>

theorem add_stacked_item_overfull_counterexample:
  "\<not> within_stack_size ''Scrap'' (add_all [stack ''Scrap'' 100] ''Scrap'' [1])"
  by (simp add: add_all_def add_stacked_item_def new_stacks.simps existing_qty_def
        SCRAP_STACK_SIZE_def within_stack_size_def stack_def)

section \<open>Depositing scrap\<close>

text \<open>
  C6. For every inventory that holds N units of "Scrap" over its stacks, the command
  \<^verbatim>\<open>deposit_scrap\<close> with the argument "Scrap" adds exactly 2 * N to the credits and
  leaves the inventory without its "Scrap" stacks, the other stacks as they were; the
  same holds for "Iron Scrap" at the rate 5. For every other scrap type, and with no
  argument, the reply is "Invalid scrap type." and the session is unchanged.
\<close>

theorem deposit_scrap_credits:
  "(total_of ''Scrap'' (p_inventory (player s)) = N \<longrightarrow>
      run_command exec s ''deposit_scrap'' (Some (''Scrap'' # rest)) =
        (s\<lparr>player := (player s)\<lparr>p_credits := p_credits (player s) + 2 * N,
              p_inventory := others ''Scrap'' (p_inventory (player s))\<rparr>\<rparr>,
         Deposited N ''Scrap'' (2 * N)) \<and>
      filter (\<lambda>i. i_name i = ''Scrap'') (others ''Scrap'' (p_inventory (player s))) = []) \<and>
   (total_of ''Iron Scrap'' (p_inventory (player s)) = N \<longrightarrow>
      run_command exec s ''deposit_scrap'' (Some (''Iron Scrap'' # rest)) =
        (s\<lparr>player := (player s)\<lparr>p_credits := p_credits (player s) + 5 * N,
              p_inventory := others ''Iron Scrap'' (p_inventory (player s))\<rparr>\<rparr>,
         Deposited N ''Iron Scrap'' (5 * N)) \<and>
      filter (\<lambda>i. i_name i = ''Iron Scrap'')
        (others ''Iron Scrap'' (p_inventory (player s))) = []) \<and>
   (t \<noteq> ''Scrap'' \<and> t \<noteq> ''Iron Scrap'' \<longrightarrow>
      run_command exec s ''deposit_scrap'' (Some (t # rest)) = (s, InvalidScrapType)) \<and>
   run_command exec s ''deposit_scrap'' (Some []) = (s, InvalidScrapType) \<and>
   run_command exec s ''deposit_scrap'' None = (s, InvalidScrapType)"
  by (simp add: run_command_def total_of_def others_def Let_def)

text \<open>
  The theorem at a player with 7 credits and 64 + 6 scrap in two stacks: the deposit
  pays 140 credits; a deposit of "Gold" is refused.
\<close>

theorem deposit_scrap_witness:
  "run_command command_not_available scrap_session ''deposit_scrap'' (Some [''Scrap'']) =
     (scrap_session\<lparr>player := (player scrap_session)\<lparr>p_credits := 147,
         p_inventory := [stack ''Medpack'' 1,
                         \<lparr>i_name = ''Iron Scrap'', i_qty = None, i_count = Some 3\<rparr>]\<rparr>\<rparr>,
      Deposited 70 ''Scrap'' 140) \<and>
   run_command command_not_available scrap_session ''deposit_scrap'' (Some [''Gold'']) =
     (scrap_session, InvalidScrapType)"
proof -
  have n: "total_of ''Scrap'' (p_inventory (player scrap_session)) = 70"
    by (simp add: scrap_session_def total_of_def stack_def existing_qty_def)
  have "run_command command_not_available scrap_session ''deposit_scrap''
          (Some (''Scrap'' # [])) =
        (scrap_session\<lparr>player := (player scrap_session)\<lparr>
            p_credits := p_credits (player scrap_session) + 2 * 70,
            p_inventory := others ''Scrap'' (p_inventory (player scrap_session))\<rparr>\<rparr>,
         Deposited 70 ''Scrap'' (2 * 70))"
    using deposit_scrap_credits [THEN conjunct1, rule_format, OF n]
    by (rule conjunct1)
  then have paid: "run_command command_not_available scrap_session ''deposit_scrap''
          (Some [''Scrap'']) =
     (scrap_session\<lparr>player := (player scrap_session)\<lparr>p_credits := 147,
         p_inventory := [stack ''Medpack'' 1,
                         \<lparr>i_name = ''Iron Scrap'', i_qty = None, i_count = Some 3\<rparr>]\<rparr>\<rparr>,
      Deposited 70 ''Scrap'' 140)"
    by (simp add: scrap_session_def others_def stack_def new_session_def new_player_def)
  have "''Gold'' \<noteq> ''Scrap'' \<and> ''Gold'' \<noteq> ''Iron Scrap''"
    by simp
  then have refused: "run_command command_not_available scrap_session ''deposit_scrap''
          (Some (''Gold'' # [])) = (scrap_session, InvalidScrapType)"
    by (rule deposit_scrap_credits [where N = 0, THEN conjunct2, THEN conjunct2, THEN conjunct1,
          rule_format])
  from paid refused show ?thesis ..
qed

section \<open>Healing\<close>

text \<open>
  C10. For every session, \<^verbatim>\<open>heal_player\<close> sets the player's health to the smaller of
  max_health and health + 15 and changes no other field of the player or of the
  session; the health rises by 15 at most and is not above max_health afterwards.
\<close>

theorem heal_player_health:
  "fst (heal_player s) =
     s\<lparr>player := (player s)\<lparr>p_health :=
          min (p_max_health (player s)) (p_health (player s) + 15)\<rparr>\<rparr> \<and>
   p_health (player (fst (heal_player s))) \<le> p_health (player s) + 15 \<and>
   p_health (player (fst (heal_player s))) \<le> p_max_health (player s)"
  by (simp add: heal_player_def)

section \<open>Buying\<close>

text \<open>
  C7. For every session and every item whose price is above the player's credits,
  \<^verbatim>\<open>shop_buy\<close> replies "Not enough credits." and returns the session as it was, so
  credits, inventory and plasma_durability are unchanged; for every name that the price
  table does not have, it replies that the item cannot be bought, again with the session
  unchanged.
\<close>

theorem shop_buy_refused:
  "(map_of PRICES item_name = Some cost \<and> p_credits (player s) < cost \<longrightarrow>
      shop_buy s item_name = (s, NotEnoughCredits)) \<and>
   (map_of PRICES item_name = None \<longrightarrow>
      shop_buy s item_name = (s, CannotBeBought item_name))"
  by (simp add: shop_buy_def)

text \<open>The theorem at a new player, who has no credits, for a Medpack and for a name
  that is not sold.\<close>

theorem shop_buy_refused_witness:
  "shop_buy new_session ''Medpack'' = (new_session, NotEnoughCredits) \<and>
   shop_buy new_session ''Sword'' = (new_session, CannotBeBought ''Sword'')"
proof -
  have poor: "map_of PRICES ''Medpack'' = Some 25 \<and> p_credits (player new_session) < 25"
    by (simp add: PRICES_def new_session_def new_player_def)
  have absent: "map_of PRICES ''Sword'' = None"
    by (simp add: PRICES_def)
  from poor have "shop_buy new_session ''Medpack'' = (new_session, NotEnoughCredits)"
    by (rule shop_buy_refused [THEN conjunct1, rule_format])
  moreover from absent
  have "shop_buy new_session ''Sword'' = (new_session, CannotBeBought ''Sword'')"
    by (rule shop_buy_refused [where cost = 0, THEN conjunct2, rule_format])
  ultimately show ?thesis ..
qed

section \<open>Searching with a full inventory\<close>

text \<open>
  C4, amended. For every session whose player holds 6 stacks or more, \<^verbatim>\<open>search\<close>
  returns the inventory-full reply with no items and \<^verbatim>\<open>credits_gained\<close> 0, whatever
  the random draws are, and the session is unchanged: no item is added and no credit
  bonus is granted.
\<close>

theorem search_inventory_full:
  assumes "MAX_INVENTORY_SLOTS \<le> length (p_inventory (player s))"
  shows "search s choices credits_gain =
     (s, \<lparr>s_ok = False, s_msg = InventoryIsFull, s_items = [], s_credits_gained = 0\<rparr>)"
  using assms by (simp add: search_def)

theorem search_inventory_full_witness:
  "search full_session [0] 25 =
     (full_session,
      \<lparr>s_ok = False, s_msg = InventoryIsFull, s_items = [], s_credits_gained = 0\<rparr>)"
proof -
  have "MAX_INVENTORY_SLOTS \<le> length (p_inventory (player full_session))"
    by (simp add: MAX_INVENTORY_SLOTS_def full_session_def)
  then show ?thesis
    by (rule search_inventory_full)
qed

text \<open>
  C4 as stated fails: the player with six stacks and 40 credits has 40 credits after the
  search, although the draw of the bonus is 25.
\<close>

theorem search_full_no_bonus_counterexample:
  "length (p_inventory (player full_session)) = MAX_INVENTORY_SLOTS \<and>
   p_credits (player full_session) = 40 \<and>
   p_credits (player (fst (search full_session [0] 25))) = 40"
  by (simp add: search_def MAX_INVENTORY_SLOTS_def full_session_def)

section \<open>The durability of the Plasma Blaster\<close>

text \<open>What the durability block does, case by case.\<close>

lemma plasma_durability_rule_cases:
  "plasma_durability_rule s =
     (if \<not> list_ex (\<lambda>i. i_name i = ''Plasma Blaster'') (p_inventory (player s)) then s
      else if p_plasma_durability (player s) = 1 then
        s\<lparr>player := (player s)\<lparr>p_plasma_durability := 0,
              p_inventory :=
                filter (\<lambda>i. i_name i \<noteq> ''Plasma Blaster'') (p_inventory (player s))\<rparr>,
          messages := Some ((case messages s of None \<Rightarrow> [] | Some ms \<Rightarrow> ms)
                            @ [PlasmaWarning, PlasmaBreaks])\<rparr>
      else if p_plasma_durability (player s) > 1 then
        s\<lparr>player := (player s)\<lparr>p_plasma_durability := p_plasma_durability (player s) - 1\<rparr>\<rparr>
      else s)"
  by (auto simp: plasma_durability_rule_def append_message_def Let_def)

text \<open>
  C5 at the last charge. The player holds the Plasma Blaster with plasma_durability 1 and
  has no messages. After \<^verbatim>\<open>start_adventure\<close> the durability is 0, the weapon is gone
  from the inventory, and the log holds the warning followed by the weapon-breaks
  message: the code warns and breaks the weapon in the same call.
\<close>

theorem start_adventure_last_charge:
  "p_plasma_durability (player last_charge_session) = 1 \<and>
   p_inventory (player last_charge_session) = [stack ''Plasma Blaster'' 1] \<and>
   messages last_charge_session = None \<and>
   p_plasma_durability (player (fst (start_adventure last_charge_session [1] 20 1 0))) = 0 \<and>
   p_inventory (player (fst (start_adventure last_charge_session [1] 20 1 0))) = [] \<and>
   messages (fst (start_adventure last_charge_session [1] 20 1 0))
     = Some [PlasmaWarning, PlasmaBreaks]"
  by (simp add: start_adventure_def plasma_durability_rule_def append_message_def
        last_charge_session_def new_session_def new_player_def stack_def Let_def)

section \<open>The float product\<close>

lemma bit_length_0 [simp]: "bit_length 0 = 0"
  by (simp add: bit_length.simps)

lemma bit_length_bounds:
  "0 < n \<Longrightarrow> 2 ^ (bit_length n - 1) \<le> n \<and> n < 2 ^ bit_length n"
proof (induction n rule: bit_length.induct)
  case (1 n)
  show ?case
  proof (cases "n div 2 = 0")
    case True
    with "1.prems" have "n = 1" by (simp add: div_eq_0_iff)
    then show ?thesis by (simp add: bit_length.simps)
  next
    case False
    then have pos: "0 < n div 2" by simp
    from "1.prems" have L: "bit_length n = Suc (bit_length (n div 2))"
      by (subst bit_length.simps) simp
    from pos have L2: "0 < bit_length (n div 2)"
      by (subst bit_length.simps) simp
    from "1.IH" "1.prems" pos
    have IH: "2 ^ (bit_length (n div 2) - 1) \<le> n div 2" "n div 2 < 2 ^ bit_length (n div 2)"
      by simp_all
    from L2 have "(2::nat) ^ bit_length (n div 2) = 2 * 2 ^ (bit_length (n div 2) - 1)"
      by (cases "bit_length (n div 2)") simp_all
    with IH L show ?thesis by simp linarith
  qed
qed

lemma bit_length_le:
  assumes "n < 2 ^ k"
  shows "bit_length n \<le> k"
proof (cases "n = 0")
  case True
  then show ?thesis by simp
next
  case False
  then have "2 ^ (bit_length n - 1) \<le> n" using bit_length_bounds by simp
  from this assms have "(2::nat) ^ (bit_length n - 1) < 2 ^ k" by (rule le_less_trans)
  then have "bit_length n - 1 < k" by (rule power_less_imp_less_exp [rotated]) simp
  then show ?thesis by simp
qed

lemma bit_length_eqI:
  assumes "2 ^ k \<le> n" and "n < 2 ^ (k + 1)"
  shows "bit_length n = k + 1"
proof -
  have "(0::nat) < 2 ^ k" by simp
  from this assms(1) have pos: "0 < n" by (rule less_le_trans)
  then have b: "2 ^ (bit_length n - 1) \<le> n" "n < 2 ^ bit_length n"
    using bit_length_bounds by simp_all
  from b(1) assms(2) have "(2::nat) ^ (bit_length n - 1) < 2 ^ (k + 1)" by (rule le_less_trans)
  then have u: "bit_length n - 1 < k + 1" by (rule power_less_imp_less_exp [rotated]) simp
  from assms(1) b(2) have "(2::nat) ^ k < 2 ^ bit_length n" by (rule le_less_trans)
  then have l: "k < bit_length n" by (rule power_less_imp_less_exp [rotated]) simp
  from u l show ?thesis by simp
qed

text \<open>An integer below \<open>2 ^ 53\<close> is a double.\<close>

lemma round53_exact: "n < 2 ^ 53 \<Longrightarrow> round53 n = n"
  by (simp add: round53_def bit_length_le)

text \<open>Rounding does not go below the truncated value, nor above half a unit in the last
  place.\<close>

lemma round53_bounds:
  assumes "53 < bit_length p"
  shows "(p div 2 ^ (bit_length p - 53)) * 2 ^ (bit_length p - 53) \<le> round53 p"
    and "2 * round53 p \<le> 2 * p + 2 ^ (bit_length p - 53)"
proof -
  define sh where "sh = bit_length p - 53"
  define q where "q = p div 2 ^ sh"
  define r where "r = p mod 2 ^ sh"
  have sh: "0 < sh" using assms by (simp add: sh_def)
  have p: "p = q * 2 ^ sh + r" by (simp only: q_def r_def div_mult_mod_eq)
  have half: "(2::nat) ^ sh = 2 * 2 ^ (sh - 1)" using sh by (cases sh) simp_all
  have R: "round53 p =
      (if r > 2 ^ (sh - 1) \<or> (r = 2 ^ (sh - 1) \<and> odd q) then q + 1 else q) * 2 ^ sh"
    using assms by (simp add: round53_def Let_def sh_def q_def r_def)
  show "(p div 2 ^ (bit_length p - 53)) * 2 ^ (bit_length p - 53) \<le> round53 p"
    unfolding R sh_def [symmetric] q_def [symmetric] by simp
  show "2 * round53 p \<le> 2 * p + 2 ^ (bit_length p - 53)"
    unfolding R sh_def [symmetric] using p half by (auto simp: algebra_simps)
qed

lemma five_times: "5 * DOUBLE_0_40 = 2 ^ 54 + 1"
  by (simp add: DOUBLE_0_40_def)

lemma DOUBLE_0_40_less: "DOUBLE_0_40 < 2 ^ 52"
  by (simp add: DOUBLE_0_40_def)

text \<open>
  Below \<open>2 ^ 51\<close> the rounded product has the integer part of two fifths of the
  integer: the double 0.40 is above two fifths by \<open>1 / (5 * 2 ^ 53)\<close>, and that excess
  and the rounding together stay below the distance to the next integer.
\<close>

lemma times_0_40_nat:
  assumes n: "n < 2 ^ 51"
  shows "round53 (n * DOUBLE_0_40) div 2 ^ 53 = 2 * n div 5"
proof -
  define p where "p = n * DOUBLE_0_40"
  define k where "k = 2 * n div 5"
  define R where "R = round53 p"
  have p5: "5 * p = n * 2 ^ 54 + n"
    using five_times by (simp add: p_def algebra_simps)
  have k1: "5 * k \<le> 2 * n" and k2: "2 * n + 1 \<le> 5 * (k + 1)"
    unfolding k_def by presburger+
  have low: "k * 2 ^ 53 \<le> p"
  proof -
    have "5 * (k * 2 ^ 53) \<le> 2 * n * 2 ^ 53" using k1 by simp
    also have "\<dots> \<le> 5 * p" using p5 by simp
    finally show ?thesis by simp
  qed
  have "k * 2 ^ 53 \<le> R \<and> R < (k + 1) * 2 ^ 53"
  proof (cases "bit_length p \<le> 53")
    case True
    then have "R = p" by (simp add: R_def round53_def)
    moreover have "p < 2 ^ 53"
    proof (cases "p = 0")
      case False
      then have "p < 2 ^ bit_length p" using bit_length_bounds by simp
      also have "\<dots> \<le> 2 ^ 53" using True by (intro power_increasing) simp_all
      finally show ?thesis .
    qed simp
    ultimately show ?thesis using low by simp
  next
    case False
    then have big: "53 < bit_length p" by simp
    define sh where "sh = bit_length p - 53"
    have ppos: "0 < p" using big by (cases "p = 0") simp_all
    have "p < 2 ^ 51 * 2 ^ 52"
      unfolding p_def using n DOUBLE_0_40_less
      by (intro mult_strict_mono) simp_all
    then have "p < 2 ^ 103" by simp
    then have "bit_length p \<le> 103" by (rule bit_length_le)
    then have sh53: "sh \<le> 53" by (simp add: sh_def)
    have "2 ^ (bit_length p - 1) \<le> p" using bit_length_bounds ppos by simp
    moreover have "bit_length p - 1 = sh + 52" using big by (simp add: sh_def)
    ultimately have "2 ^ sh * 2 ^ 52 \<le> p" by (simp add: power_add)
    also have "p \<le> n * 2 ^ 52" unfolding p_def using DOUBLE_0_40_less by simp
    finally have shn: "2 ^ sh \<le> n" by simp
    have split53: "(2::nat) ^ 53 = 2 ^ (53 - sh) * 2 ^ sh"
      using sh53 by (simp add: power_add [symmetric])
    have "k * 2 ^ (53 - sh) * 2 ^ sh \<le> p" using low split53 by (simp add: mult.assoc)
    then have "k * 2 ^ (53 - sh) \<le> p div 2 ^ sh"
      by (simp add: less_eq_div_iff_mult_less_eq)
    then have "k * 2 ^ (53 - sh) * 2 ^ sh \<le> (p div 2 ^ sh) * 2 ^ sh" by simp
    also have "\<dots> \<le> R" unfolding R_def sh_def by (rule round53_bounds(1) [OF big])
    finally have lower: "k * 2 ^ 53 \<le> R" using split53 by (simp add: mult.assoc)
    have "2 * R \<le> 2 * p + 2 ^ sh" unfolding R_def sh_def by (rule round53_bounds(2) [OF big])
    then have "10 * R \<le> 2 * (5 * p) + 5 * 2 ^ sh" by simp
    also have "\<dots> \<le> 2 * n * 2 ^ 54 + 2 * n + 5 * n" using p5 shn by simp
    also have "\<dots> < 2 * n * 2 ^ 54 + 2 ^ 54" using n by simp
    also have "\<dots> = 2 * (2 * n + 1) * 2 ^ 53" by simp
    also have "\<dots> \<le> 2 * (5 * (k + 1)) * 2 ^ 53" using k2 by simp
    finally have "R < (k + 1) * 2 ^ 53" by simp
    with lower show ?thesis by simp
  qed
  then have "R div 2 ^ 53 = k"
    by (intro div_nat_eqI) (simp_all add: mult.commute)
  then show ?thesis by (simp add: R_def p_def k_def)
qed

text \<open>\<^verbatim>\<open>int(a * 0.40)\<close> for an integer of magnitude below \<open>2 ^ 51\<close>: two fifths of
  it, truncated towards zero.\<close>

lemma int_of_times_0_40_in_range:
  assumes "\<bar>a\<bar> < 2 ^ 51"
  shows "int_of_times_0_40 a =
     Inr (if a < 0 then - (2 * \<bar>a\<bar> div 5) else 2 * \<bar>a\<bar> div 5)"
proof -
  define n where "n = nat \<bar>a\<bar>"
  have n: "n < 2 ^ 51" using assms by (simp add: n_def nat_less_iff)
  then have n53: "n < 2 ^ 53" by simp
  have x: "round53 n = n" using n53 by (rule round53_exact)
  have small: "\<not> (2::nat) ^ 1024 \<le> n"
  proof -
    have "n < (2::nat) ^ 1024" using n53
      by (rule less_le_trans) (rule power_increasing, simp_all)
    then show ?thesis by simp
  qed
  have v: "int_of_times_0_40 a =
      Inr (if a < 0 then - int (2 * n div 5) else int (2 * n div 5))"
    unfolding int_of_times_0_40_def Let_def n_def [symmetric] x times_0_40_nat [OF n]
    using small by (simp only: if_False)
  have "int n = \<bar>a\<bar>" by (simp add: n_def)
  then have "int (2 * n div 5) = 2 * \<bar>a\<bar> div 5" by (simp add: zdiv_int)
  with v show ?thesis by simp
qed

lemma int_of_times_0_40_exact:
  assumes "0 \<le> a" and "a < 2 ^ 51"
  shows "int_of_times_0_40 a = Inr (2 * a div 5)"
  using assms int_of_times_0_40_in_range [of a] by simp

text \<open>Under \<^verbatim>\<open>max(4, ...)\<close> the truncation towards zero and the floor agree.\<close>

lemma int_of_times_0_40_small:
  assumes "\<bar>a\<bar> < 2 ^ 51"
  shows "\<exists>v. int_of_times_0_40 a = Inr v \<and> max 4 v = max 4 (2 * a div 5)"
proof (cases "a < 0")
  case True
  then have "2 * a div 5 < 0" by simp
  moreover have "0 \<le> 2 * \<bar>a\<bar> div 5" by simp
  ultimately show ?thesis
    using True int_of_times_0_40_in_range [OF assms] by simp
next
  case False
  then show ?thesis
    using int_of_times_0_40_in_range [OF assms] by simp
qed

text \<open>
  At \<open>2 ^ 52 + 1\<close> the product is rounded up across an integer: two fifths of it are
  1801439850948198.8, and the double product is 1801439850948199.
\<close>

lemma int_of_times_0_40_rounds_up:
  "int_of_times_0_40 4503599627370497 = Inr 1801439850948199"
proof -
  have x: "round53 4503599627370497 = 4503599627370497"
    by (rule round53_exact) simp
  have p: "4503599627370497 * DOUBLE_0_40 = 16225927682921340842757428399309"
    by (simp add: DOUBLE_0_40_def)
  have bl: "bit_length 16225927682921340842757428399309 = 103 + 1"
    by (rule bit_length_eqI) simp_all
  have r: "round53 16225927682921340842757428399309 = 16225927682921341743477353873408"
    by (simp add: round53_def bl Let_def)
  show ?thesis
    unfolding int_of_times_0_40_def Let_def
    by (simp add: x p r)
qed

text \<open>At \<open>2 ^ 1024\<close> the conversion to a double overflows.\<close>

lemma int_of_times_0_40_overflow: "int_of_times_0_40 (2 ^ 1024) = Inl OverflowError"
proof -
  have n: "nat \<bar>2 ^ 1024 :: int\<bar> = 2 ^ 1024"
    by (simp add: nat_power_eq)
  have bl: "bit_length (2 ^ 1024) = 1024 + 1"
    by (rule bit_length_eqI) simp_all
  have "(2::nat) ^ 1024 = 2 ^ 52 * 2 ^ 972"
    by (simp only: power_add [symmetric]) simp
  then have r: "round53 (2 ^ 1024) = 2 ^ 1024"
    unfolding round53_def bl Let_def by simp
  show ?thesis
    unfolding int_of_times_0_40_def Let_def n r by simp
qed

section \<open>What a claim gives the player\<close>

text \<open>A call with a quantity of 0 or more adds that quantity to the units of the name,
  and leaves the stacks of every other name as they are.\<close>

lemma fill_stacks_left0:
  "0 \<le> q \<Longrightarrow> snd (fill_stacks n q ivt) = Some r \<Longrightarrow> 0 \<le> r"
proof (induction ivt arbitrary: q)
  case Nil
  then show ?case by simp
next
  case (Cons a ivt)
  show ?case
    using Cons.prems Cons.IH [of q] Cons.IH [of "q - (SCRAP_STACK_SIZE - existing_qty a)"]
    by (auto simp: Let_def split_beta SCRAP_STACK_SIZE_def split: if_splits)
qed

lemma add_stacked_item_total0:
  "0 \<le> q \<Longrightarrow> total_of n (add_stacked_item ivt n q) = total_of n ivt + q"
  using fill_stacks_total [of n q ivt] fill_stacks_left0 [of q n ivt]
  by (auto simp: add_stacked_item_def total_of_def new_stacks_total [unfolded total_of_def]
           split: prod.splits option.splits)

lemma add_stacked_item_other_name:
  assumes "m \<noteq> n"
  shows "filter (\<lambda>i. i_name i = n) (add_stacked_item ivt m q) = filter (\<lambda>i. i_name i = n) ivt"
proof -
  have "filter (\<lambda>i. i_name i = n) xs = filter (\<lambda>i. i_name i = n) (others m xs)" for xs
    using assms by (induction xs) (auto simp: others_def)
  from this [of "add_stacked_item ivt m q"] this [of ivt] show ?thesis
    by (simp add: add_stacked_item_others)
qed

text \<open>One entry of the manifest: the credits, the stacks of a name that is not scrap,
  the units of a scrap name, and the other fields of the player.\<close>

lemma take_loot_credits:
  "p_credits (take_loot p i) = p_credits p + (if i_name i = ''Credits'' then loot_qty i else 0)"
  by (simp add: take_loot_def Let_def)

lemma take_loot_stacks:
  assumes "n \<noteq> ''Scrap''" and "n \<noteq> ''Iron Scrap''"
  shows "filter (\<lambda>j. i_name j = n) (p_inventory (take_loot p i)) =
         filter (\<lambda>j. i_name j = n) (p_inventory p)
         @ (if i_name i = n \<and> n \<noteq> ''Credits'' then [loot_stack i] else [])"
  using assms
  by (auto simp: take_loot_def Let_def loot_stack_def add_stacked_item_other_name)

lemma take_loot_scrap:
  assumes "n = ''Scrap'' \<or> n = ''Iron Scrap''" and "i_name i = n \<longrightarrow> 0 \<le> loot_qty i"
  shows "total_of n (p_inventory (take_loot p i)) =
         total_of n (p_inventory p) + (if i_name i = n then loot_qty i else 0)"
proof (cases "i_name i = n")
  case True
  with assms show ?thesis
    by (auto simp: take_loot_def Let_def add_stacked_item_total0)
next
  case False
  then have "filter (\<lambda>j. i_name j = n) (p_inventory (take_loot p i)) =
             filter (\<lambda>j. i_name j = n) (p_inventory p)"
    by (auto simp: take_loot_def Let_def add_stacked_item_other_name)
  with False show ?thesis by (simp add: total_of_def)
qed

lemma take_loot_rest:
  "(take_loot p i)\<lparr>p_credits := c, p_inventory := v\<rparr> = p\<lparr>p_credits := c, p_inventory := v\<rparr>"
  by (simp add: take_loot_def Let_def)

text \<open>The whole manifest, by induction over its entries.\<close>

lemma foldl_take_loot_credits:
  "p_credits (foldl take_loot p loot) = p_credits p + loot_total ''Credits'' loot"
  by (induction loot arbitrary: p) (simp_all add: loot_total_def take_loot_credits)

lemma foldl_take_loot_rest:
  "(foldl take_loot p loot)\<lparr>p_credits := c, p_inventory := v\<rparr>
     = p\<lparr>p_credits := c, p_inventory := v\<rparr>"
  by (induction loot arbitrary: p) (simp_all add: take_loot_rest)

lemma foldl_take_loot_stacks:
  assumes "n \<noteq> ''Scrap''" and "n \<noteq> ''Iron Scrap''"
  shows "filter (\<lambda>j. i_name j = n) (p_inventory (foldl take_loot p loot)) =
         filter (\<lambda>j. i_name j = n) (p_inventory p)
         @ (if n = ''Credits'' then [] else map loot_stack (filter (\<lambda>i. i_name i = n) loot))"
  by (induction loot arbitrary: p) (simp_all add: take_loot_stacks [OF assms])

lemma foldl_take_loot_scrap:
  assumes "n = ''Scrap'' \<or> n = ''Iron Scrap''"
    and "\<forall>i\<in>set loot. i_name i = n \<longrightarrow> 0 \<le> loot_qty i"
  shows "total_of n (p_inventory (foldl take_loot p loot)) =
         total_of n (p_inventory p) + loot_total n loot"
  using assms(2)
proof (induction loot arbitrary: p)
  case Nil
  show ?case by (simp add: loot_total_def)
next
  case (Cons i loot)
  from Cons.prems have i: "i_name i = n \<longrightarrow> 0 \<le> loot_qty i"
    and rest: "\<forall>i\<in>set loot. i_name i = n \<longrightarrow> 0 \<le> loot_qty i"
    by simp_all
  show ?case
    using Cons.IH [OF rest, of "take_loot p i"] take_loot_scrap [OF assms(1) i, of p]
    by (simp add: loot_total_def)
qed

text \<open>
  What \<^verbatim>\<open>claim_loot\<close> does to a session with the manifest \<open>loot\<close>: the reply is the
  manifest; the credits rise by the credits entries; for a name that is not scrap, the
  stacks of the name are those before, followed by one new stack per entry of the name
  (none for the credits entries); for a scrap name whose entries have quantities of 0 or
  more, the units of the name rise by the units of its entries; no other field of the
  player and of the session changes, but the manifest, which is emptied.
\<close>

lemma claim_loot_gives:
  assumes "unclaimed_loot s = loot"
  shows "snd (claim_loot s) = loot \<and>
   unclaimed_loot (fst (claim_loot s)) = [] \<and>
   p_credits (player (fst (claim_loot s))) = p_credits (player s) + loot_total ''Credits'' loot \<and>
   (n \<noteq> ''Scrap'' \<and> n \<noteq> ''Iron Scrap'' \<longrightarrow>
      filter (\<lambda>j. i_name j = n) (p_inventory (player (fst (claim_loot s)))) =
      filter (\<lambda>j. i_name j = n) (p_inventory (player s))
      @ (if n = ''Credits'' then [] else map loot_stack (filter (\<lambda>i. i_name i = n) loot))) \<and>
   ((n = ''Scrap'' \<or> n = ''Iron Scrap'') \<and>
    (\<forall>i\<in>set loot. i_name i = n \<longrightarrow> 0 \<le> loot_qty i) \<longrightarrow>
      total_of n (p_inventory (player (fst (claim_loot s))))
        = total_of n (p_inventory (player s)) + loot_total n loot) \<and>
   (player (fst (claim_loot s)))\<lparr>p_credits := p_credits (player s),
       p_inventory := p_inventory (player s)\<rparr> = player s \<and>
   (fst (claim_loot s))\<lparr>player := player s, unclaimed_loot := loot\<rparr> = s \<and>
   snd (claim_loot (fst (claim_loot s))) = [] \<and>
   fst (claim_loot (fst (claim_loot s))) = fst (claim_loot s)"
proof -
  have p: "player (fst (claim_loot s)) = foldl take_loot (player s) loot"
    using assms by (simp add: claim_loot_def Let_def)
  have credits: "p_credits (player (fst (claim_loot s)))
     = p_credits (player s) + loot_total ''Credits'' loot"
    unfolding p by (rule foldl_take_loot_credits)
  have stacks: "n \<noteq> ''Scrap'' \<and> n \<noteq> ''Iron Scrap'' \<longrightarrow>
      filter (\<lambda>j. i_name j = n) (p_inventory (player (fst (claim_loot s)))) =
      filter (\<lambda>j. i_name j = n) (p_inventory (player s))
      @ (if n = ''Credits'' then [] else map loot_stack (filter (\<lambda>i. i_name i = n) loot))"
    unfolding p using foldl_take_loot_stacks [of n "player s" loot] by blast
  have scrap: "(n = ''Scrap'' \<or> n = ''Iron Scrap'') \<and>
    (\<forall>i\<in>set loot. i_name i = n \<longrightarrow> 0 \<le> loot_qty i) \<longrightarrow>
      total_of n (p_inventory (player (fst (claim_loot s))))
        = total_of n (p_inventory (player s)) + loot_total n loot"
    unfolding p using foldl_take_loot_scrap [of n loot "player s"] by blast
  have rest: "(player (fst (claim_loot s)))\<lparr>p_credits := p_credits (player s),
       p_inventory := p_inventory (player s)\<rparr> = player s"
    unfolding p by (simp add: foldl_take_loot_rest)
  have session: "snd (claim_loot s) = loot \<and>
     unclaimed_loot (fst (claim_loot s)) = [] \<and>
     (fst (claim_loot s))\<lparr>player := player s, unclaimed_loot := loot\<rparr> = s \<and>
     snd (claim_loot (fst (claim_loot s))) = [] \<and>
     fst (claim_loot (fst (claim_loot s))) = fst (claim_loot s)"
    using assms by (auto simp: claim_loot_def Let_def)
  from credits stacks scrap rest session show ?thesis
    by blast
qed

text \<open>The claim of the sample manifest, computed: 30 credits, 2 scrap on the open stack
  of 6, nothing on the iron scrap but its two keys in step, and a new Medpack stack.\<close>

lemma claim_loot_sample:
  "claim_loot loot_session =
     (loot_session\<lparr>player := (player scrap_session)\<lparr>p_credits := 37, p_inventory :=
         [stack ''Scrap'' 64, stack ''Medpack'' 1,
          \<lparr>i_name = ''Iron Scrap'', i_qty = Some 3, i_count = Some 3\<rparr>,
          \<lparr>i_name = ''Scrap'', i_qty = Some 8, i_count = Some 8\<rparr>,
          stack ''Medpack'' 1]\<rparr>,
        unclaimed_loot := []\<rparr>,
      unclaimed_loot loot_session)"
  by (simp add: claim_loot_def take_loot_def loot_qty_def Let_def loot_session_def
        scrap_session_def new_session_def new_player_def stack_def
        add_stacked_item_def existing_qty_def SCRAP_STACK_SIZE_def new_stacks.simps)

section \<open>Resolving attacks\<close>

text \<open>The sample encounter is the one that \<^verbatim>\<open>start_adventure\<close> sets up in a new
  session for the level draws 1 and 2 and the loot draws 30, 2 and 0.\<close>

lemma two_raiders_started:
  "fst (start_adventure new_session [1, 2] 30 2 0) = two_raiders"
  by (simp add: start_adventure_def plasma_durability_rule_def new_session_def new_player_def
        two_raiders_def raid_loot_def Let_def enumerate_eq_zip)

lemma target_index_None:
  "target_index es enemy_id = None \<longleftrightarrow> enemy_id \<notin> e_id ` set es"
  by (induction es) auto

lemma counter_attacks_append:
  "counter_attacks (evs @ evs') = counter_attacks evs @ counter_attacks evs'"
  by (induction evs rule: counter_attacks.induct) simp_all

text \<open>
  C8. For every session, \<^verbatim>\<open>attack_enemy\<close> fails with "No active combat" when the
  session has no combat, and with "Invalid enemy id" when no enemy of the roster has the
  id; in both cases the session after the call is the session before, so the player, the
  roster and the unclaimed loot are untouched.
\<close>

theorem attack_enemy_refused:
  "(combat s = None \<longrightarrow>
      attack_enemy s enemy_id attack choice = (s, Inl NoActiveCombat)) \<and>
   (combat s = Some enemies \<and> enemy_id \<notin> e_id ` set enemies \<longrightarrow>
      attack_enemy s enemy_id attack choice = (s, Inl InvalidEnemyId))"
  using target_index_None [of enemies enemy_id] by (auto simp: attack_enemy_def)

text \<open>The theorem at a new session, and at the encounter with raiders 0 and 1 for the
  id 7.\<close>

theorem attack_enemy_refused_witness:
  "attack_enemy new_session 0 10 0 = (new_session, Inl NoActiveCombat) \<and>
   attack_enemy two_raiders 7 10 0 = (two_raiders, Inl InvalidEnemyId)"
proof -
  have none: "combat new_session = None"
    by (simp add: new_session_def)
  have other: "combat two_raiders = Some [make_enemy 0 1, make_enemy 1 2] \<and>
      7 \<notin> e_id ` set [make_enemy 0 1, make_enemy 1 2]"
    by (simp add: two_raiders_def make_enemy_def)
  from none have "attack_enemy new_session 0 10 0 = (new_session, Inl NoActiveCombat)"
    by (rule attack_enemy_refused [where enemies = "[]", THEN conjunct1, rule_format])
  moreover from other
  have "attack_enemy two_raiders 7 10 0 = (two_raiders, Inl InvalidEnemyId)"
    by (rule attack_enemy_refused [THEN conjunct2, rule_format])
  ultimately show ?thesis ..
qed

text \<open>
  C3, amended. For every call of \<^verbatim>\<open>attack_enemy\<close> on an active combat, with the id of
  an enemy of the roster and an attack of magnitude below \<open>2 ^ 51\<close>: the call returns
  a reply, and if an enemy is left in the roster, the reply reports exactly one
  counter-attack, of damage max(4, floor(attack * 2 / 5)), computed from the attack
  argument, and the player's health after the call is the health before less that
  damage, floored at 0.
\<close>

theorem counter_attack_damage:
  assumes "combat s = Some enemies" and "enemy_id \<in> e_id ` set enemies"
    and "\<bar>attack\<bar> < 2 ^ 51"
  shows "\<exists>reply. snd (attack_enemy s enemy_id attack choice) = Inr reply \<and>
           (r_enemies reply \<noteq> [] \<longrightarrow>
              counter_attacks (r_events reply) = [max 4 (2 * attack div 5)] \<and>
              p_health (player (fst (attack_enemy s enemy_id attack choice)))
                = max 0 (p_health (player s) - max 4 (2 * attack div 5)))"
proof -
  from assms(2) obtain ti where ti: "target_index enemies enemy_id = Some ti"
    using target_index_None [of enemies enemy_id] by auto
  from int_of_times_0_40_small [OF assms(3)] obtain v
    where v: "int_of_times_0_40 attack = Inr v" "max 4 v = max 4 (2 * attack div 5)"
    by blast
  show ?thesis
    using v(2) by (simp add: attack_enemy_def assms(1) ti v(1) Let_def counter_attacks_append)
qed

text \<open>
  The theorem at the encounter with two raiders, for an attack of 10 on raider 0: both
  raiders are left, the counter-attack does 4 damage and the player's health goes from
  100 to 96.
\<close>

theorem counter_attack_damage_witness:
  "(case snd (attack_enemy two_raiders 0 10 0) of
      Inl e \<Rightarrow> False
    | Inr reply \<Rightarrow> length (r_enemies reply) = 2 \<and> counter_attacks (r_events reply) = [4]) \<and>
   p_health (player two_raiders) = 100 \<and>
   p_health (player (fst (attack_enemy two_raiders 0 10 0))) = 96"
proof -
  have active: "combat two_raiders = Some [make_enemy 0 1, make_enemy 1 2]"
    by (simp add: two_raiders_def)
  have target: "0 \<in> e_id ` set [make_enemy 0 1, make_enemy 1 2]"
    by (simp add: make_enemy_def)
  have range: "\<bar>10 :: int\<bar> < 2 ^ 51"
    by simp
  from counter_attack_damage [OF active target range, of 0] obtain reply
    where reply: "snd (attack_enemy two_raiders 0 10 0) = Inr reply"
      and counter: "r_enemies reply \<noteq> [] \<longrightarrow>
        counter_attacks (r_events reply) = [max 4 (2 * 10 div 5)] \<and>
        p_health (player (fst (attack_enemy two_raiders 0 10 0)))
          = max 0 (p_health (player two_raiders) - max 4 (2 * 10 div 5))"
    by blast
  have "\<exists>v. int_of_times_0_40 10 = Inr v"
    using int_of_times_0_40_small [OF range] by blast
  with reply have left: "length (r_enemies reply) = 2"
    by (auto simp: attack_enemy_def two_raiders_def make_enemy_def Let_def split: if_splits)
  then have "r_enemies reply \<noteq> []"
    by auto
  with counter have "counter_attacks (r_events reply) = [max 4 (2 * 10 div 5)]"
    and "p_health (player (fst (attack_enemy two_raiders 0 10 0)))
          = max 0 (p_health (player two_raiders) - max 4 (2 * 10 div 5))"
    by simp_all
  with reply left show ?thesis
    by (simp add: two_raiders_def new_session_def new_player_def)
qed

text \<open>
  C3 as stated fails for a large attack. For the attack \<open>2 ^ 52 + 1\<close> on raider 0,
  raider 1 is left and the counter-attack does 1801439850948199 damage, while max(4,
  floor(attack * 0.40)) is 1801439850948198: the product is rounded to 53 bits before it
  is truncated. For the attack \<open>2 ^ 1024\<close> the float product raises
  \<^verbatim>\<open>OverflowError\<close> after raider 0 has been removed and its reward credited: raider 1
  is left and there is no counter-attack at all.
\<close>

theorem counter_attack_rounding_counterexample:
  "(case snd (attack_enemy two_raiders 0 4503599627370497 0) of
      Inl e \<Rightarrow> False
    | Inr reply \<Rightarrow> r_enemies reply = [make_enemy 1 2] \<and>
        counter_attacks (r_events reply) = [1801439850948199]) \<and>
   max 4 (2 * 4503599627370497 div 5) = (1801439850948198 :: int) \<and>
   attack_enemy two_raiders 0 (2 ^ 1024) 0 =
     (two_raiders\<lparr>player := new_player\<lparr>p_credits := 15\<rparr>, combat := Some [make_enemy 1 2]\<rparr>,
      Inl OverflowError)"
proof -
  have rounded: "(case snd (attack_enemy two_raiders 0 4503599627370497 0) of
      Inl e \<Rightarrow> False
    | Inr reply \<Rightarrow> r_enemies reply = [make_enemy 1 2] \<and>
        counter_attacks (r_events reply) = [1801439850948199])"
    by (simp add: attack_enemy_def two_raiders_def new_session_def new_player_def
          make_enemy_def Let_def int_of_times_0_40_rounds_up)
  have floor: "max 4 (2 * 4503599627370497 div 5) = (1801439850948198 :: int)"
    by simp
  have dead: "max 0 (50 - 2 ^ 1024) = (0 :: int)"
    by simp
  have overflow: "attack_enemy two_raiders 0 (2 ^ 1024) 0 =
     (two_raiders\<lparr>player := new_player\<lparr>p_credits := 15\<rparr>, combat := Some [make_enemy 1 2]\<rparr>,
      Inl OverflowError)"
    unfolding attack_enemy_def Let_def int_of_times_0_40_overflow
    by (simp add: two_raiders_def new_session_def new_player_def make_enemy_def dead)
  from rounded floor overflow show ?thesis
    by (intro conjI)
qed

subsection \<open>Victory\<close>

lemma attack_enemy_loot:
  "unclaimed_loot (fst (attack_enemy s enemy_id attack choice)) = unclaimed_loot s"
  by (simp add: attack_enemy_def Let_def split: option.splits sum.splits)

text \<open>The combat of the session after a call that returns a reply: the roster of the
  reply, or none when that roster is empty.\<close>

lemma attack_enemy_reply_roster:
  assumes "attack_enemy s enemy_id attack choice = (s', Inr reply)"
  shows "combat s' = (if r_enemies reply = [] then None else Some (r_enemies reply))"
  using assms
  by (auto simp: attack_enemy_def Let_def split: option.splits sum.splits if_splits)

lemma attack_enemy_victory:
  assumes "attack_enemy s enemy_id attack choice = (s', Inr reply)" and "r_enemies reply = []"
  shows "combat s' = None \<and> r_combat_won reply \<and> r_loot reply = Some (unclaimed_loot s)"
  using assms
  by (auto simp: attack_enemy_def Let_def split: option.splits sum.splits if_splits)

lemma attack_calls_loot:
  "unclaimed_loot (fst (attack_calls s calls)) = unclaimed_loot s"
proof (induction calls arbitrary: s)
  case Nil
  show ?case by simp
next
  case (Cons c calls)
  obtain enemy_id attack choice where c: "c = (enemy_id, attack, choice)"
    by (cases c)
  show ?case
    using Cons.IH [of "fst (attack_enemy s enemy_id attack choice)"]
    by (simp add: c split_beta attack_enemy_loot)
qed

text \<open>Enemies that are alive before a call and are left in the roster are alive after
  it: the call removes the enemy that it brings to health 0.\<close>

lemma struck_roster_alive:
  assumes "list_all (\<lambda>e. 0 < e_health e) enemies"
  shows "list_all (\<lambda>e. 0 < e_health e)
     (if e_health (enemies ! ti) \<le> attack then take ti enemies @ drop (Suc ti) enemies
      else enemies[ti := (enemies ! ti)\<lparr>e_health := e_health (enemies ! ti) - attack\<rparr>])"
proof (cases "e_health (enemies ! ti) \<le> attack")
  case True
  have "set (take ti enemies @ drop (Suc ti) enemies) \<subseteq> set enemies"
    by (auto dest: in_set_takeD in_set_dropD)
  with assms True show ?thesis by (auto simp: list_all_iff)
next
  case False
  have "set (enemies[ti := (enemies ! ti)\<lparr>e_health := e_health (enemies ! ti) - attack\<rparr>])
      \<subseteq> insert ((enemies ! ti)\<lparr>e_health := e_health (enemies ! ti) - attack\<rparr>) (set enemies)"
    by (rule set_update_subset_insert)
  with assms False show ?thesis by (auto simp: list_all_iff)
qed

lemma attack_enemy_combat:
  assumes "combat s = Some enemies" and "target_index enemies enemy_id = Some ti"
  shows "combat (fst (attack_enemy s enemy_id attack choice)) = None \<or>
         combat (fst (attack_enemy s enemy_id attack choice)) = Some
     (if e_health (enemies ! ti) \<le> attack then take ti enemies @ drop (Suc ti) enemies
      else enemies[ti := (enemies ! ti)\<lparr>e_health := e_health (enemies ! ti) - attack\<rparr>])"
  unfolding attack_enemy_def Let_def assms(1) assms(2) option.case
  by (auto split: sum.splits)

lemma attack_enemy_keeps_alive:
  assumes "alive s"
  shows "alive (fst (attack_enemy s enemy_id attack choice))"
proof (cases "combat s")
  case None
  then show ?thesis using assms by (simp add: attack_enemy_def)
next
  case (Some enemies)
  show ?thesis
  proof (cases "target_index enemies enemy_id")
    case None
    then show ?thesis using assms Some by (simp add: attack_enemy_def)
  next
    case (Some ti)
    from assms \<open>combat s = Some enemies\<close> have "list_all (\<lambda>e. 0 < e_health e) enemies"
      by (simp add: alive_def)
    from struck_roster_alive [OF this, of ti attack]
      attack_enemy_combat [OF \<open>combat s = Some enemies\<close> Some, of attack choice]
    show ?thesis by (auto simp: alive_def)
  qed
qed

text \<open>The call that gives the last reply of a sequence, and the session it starts from.\<close>

lemma attack_calls_last_call:
  assumes "attack_calls s calls = (s', replies)" and "calls \<noteq> []"
    and "last replies = Inr reply"
  shows "\<exists>s0 enemy_id attack choice.
           unclaimed_loot s0 = unclaimed_loot s \<and> (alive s \<longrightarrow> alive s0) \<and>
           attack_enemy s0 enemy_id attack choice = (s', Inr reply)"
  using assms
proof (induction calls arbitrary: s s' replies)
  case Nil
  then show ?case by simp
next
  case (Cons c calls)
  obtain enemy_id attack choice where c: "c = (enemy_id, attack, choice)"
    by (cases c)
  obtain s1 res where first: "attack_enemy s enemy_id attack choice = (s1, res)"
    by (cases "attack_enemy s enemy_id attack choice")
  obtain s2 rest where more: "attack_calls s1 calls = (s2, rest)"
    by (cases "attack_calls s1 calls")
  from Cons.prems(1) have s': "s' = s2" and replies: "replies = res # rest"
    by (simp_all add: c first more)
  show ?case
  proof (cases "calls = []")
    case True
    with more have "s2 = s1" and "rest = []" by simp_all
    with Cons.prems(3) replies have "res = Inr reply" by simp
    with first s' \<open>s2 = s1\<close> have "attack_enemy s enemy_id attack choice = (s', Inr reply)"
      by simp
    then show ?thesis by blast
  next
    case False
    then have "rest \<noteq> []" using more by (cases calls) (auto simp: split_beta)
    with Cons.prems(3) replies have "last rest = Inr reply" by simp
    from Cons.IH [OF more False this] obtain s0 i a ch
      where s0: "unclaimed_loot s0 = unclaimed_loot s1" "alive s1 \<longrightarrow> alive s0"
        "attack_enemy s0 i a ch = (s2, Inr reply)"
      by blast
    have "unclaimed_loot s1 = unclaimed_loot s"
      using attack_enemy_loot [of s enemy_id attack choice] by (simp add: first)
    moreover have "alive s \<longrightarrow> alive s1"
      using attack_enemy_keeps_alive [of s enemy_id attack choice] by (simp add: first)
    ultimately show ?thesis using s0 s' by auto
  qed
qed

text \<open>
  C2. For every session and every sequence of \<^verbatim>\<open>attack_enemy\<close> calls whose last call
  returns a reply with all enemies reduced to 0: the session's combat is None afterwards,
  the reply says the combat is won and carries the loot that was generated when the
  encounter started, and that loot is still unclaimed. \<^verbatim>\<open>claim_loot\<close> then returns it
  and gives it to the player: the credits rise by the credits entries of the manifest,
  every entry that is neither credits nor scrap becomes a new stack behind the stacks of
  its name, the units of a scrap name rise by the units of its entries (of 0 or more),
  and the player and the session are otherwise unchanged. A second \<^verbatim>\<open>claim_loot\<close>
  returns an empty list and changes nothing. A call removes the enemy that it brings to
  health 0, so all enemies are reduced to 0 when the roster of the last reply is empty;
  for a roster that starts with live enemies it is the same to say that every enemy of
  that roster is at health 0 or below. The player's health is not restricted: the calls
  that leave an enemy standing reply before the victory, also when they bring the
  player's health to 0.
\<close>

theorem victory_clears_combat:
  assumes "attack_calls s calls = (s', replies)" and "calls \<noteq> []"
    and "last replies = Inr reply"
    and "r_enemies reply = [] \<or>
         (alive s \<and> list_all (\<lambda>e. e_health e \<le> 0) (r_enemies reply))"
  shows "combat s' = None \<and> r_combat_won reply \<and>
         r_loot reply = Some (unclaimed_loot s) \<and>
         unclaimed_loot s' = unclaimed_loot s \<and>
         snd (claim_loot s') = unclaimed_loot s \<and>
         unclaimed_loot (fst (claim_loot s')) = [] \<and>
         p_credits (player (fst (claim_loot s')))
           = p_credits (player s') + loot_total ''Credits'' (unclaimed_loot s) \<and>
         (n \<noteq> ''Scrap'' \<and> n \<noteq> ''Iron Scrap'' \<longrightarrow>
            filter (\<lambda>j. i_name j = n) (p_inventory (player (fst (claim_loot s')))) =
            filter (\<lambda>j. i_name j = n) (p_inventory (player s'))
            @ (if n = ''Credits'' then []
               else map loot_stack (filter (\<lambda>i. i_name i = n) (unclaimed_loot s)))) \<and>
         ((n = ''Scrap'' \<or> n = ''Iron Scrap'') \<and>
          (\<forall>i\<in>set (unclaimed_loot s). i_name i = n \<longrightarrow> 0 \<le> loot_qty i) \<longrightarrow>
            total_of n (p_inventory (player (fst (claim_loot s'))))
              = total_of n (p_inventory (player s')) + loot_total n (unclaimed_loot s)) \<and>
         (player (fst (claim_loot s')))\<lparr>p_credits := p_credits (player s'),
             p_inventory := p_inventory (player s')\<rparr> = player s' \<and>
         (fst (claim_loot s'))\<lparr>player := player s', unclaimed_loot := unclaimed_loot s\<rparr>
           = s' \<and>
         snd (claim_loot (fst (claim_loot s'))) = [] \<and>
         fst (claim_loot (fst (claim_loot s'))) = fst (claim_loot s')"
proof -
  from attack_calls_last_call [OF assms(1,2,3)] obtain s0 enemy_id attack choice
    where s0: "unclaimed_loot s0 = unclaimed_loot s" "alive s \<longrightarrow> alive s0"
      and last_call: "attack_enemy s0 enemy_id attack choice = (s', Inr reply)"
    by blast
  have empty: "r_enemies reply = []"
  proof (rule ccontr)
    assume left: "r_enemies reply \<noteq> []"
    with assms(4) have "alive s" and zero: "list_all (\<lambda>e. e_health e \<le> 0) (r_enemies reply)"
      by simp_all
    with s0(2) have "alive (fst (attack_enemy s0 enemy_id attack choice))"
      by (simp add: attack_enemy_keeps_alive)
    with last_call have "alive s'" by simp
    moreover from attack_enemy_reply_roster [OF last_call] left
    have "combat s' = Some (r_enemies reply)" by simp
    ultimately have "list_all (\<lambda>e. 0 < e_health e) (r_enemies reply)"
      by (simp add: alive_def)
    with zero left show False by (cases "r_enemies reply") auto
  qed
  have kept: "unclaimed_loot s' = unclaimed_loot s"
    using attack_calls_loot [of s calls] assms(1) by simp
  have won: "combat s' = None \<and> r_combat_won reply \<and> r_loot reply = Some (unclaimed_loot s)"
    using attack_enemy_victory [OF last_call empty] s0(1) by simp
  from won kept claim_loot_gives [OF kept, of n] show ?thesis
    by blast
qed

text \<open>
  The theorem at the encounter with two raiders, of health 50 and 60: an attack of 50 on
  raider 0 and one of 60 on raider 1. The second reply reports the victory with the loot
  of the encounter, 30 credits and 2 scrap; the player has the rewards of 15 and 20
  credits, and after the claim 65 credits and 2 scrap.
\<close>

theorem victory_clears_combat_witness:
  "combat (fst (attack_calls two_raiders [(0, 50, 1), (1, 60, 0)])) = None \<and>
   r_combat_won raid_victory \<and>
   r_loot raid_victory = Some raid_loot \<and>
   unclaimed_loot (fst (attack_calls two_raiders [(0, 50, 1), (1, 60, 0)])) = raid_loot \<and>
   snd (claim_loot (fst (attack_calls two_raiders [(0, 50, 1), (1, 60, 0)]))) = raid_loot \<and>
   p_credits (player (fst (attack_calls two_raiders [(0, 50, 1), (1, 60, 0)]))) = 35 \<and>
   p_credits (player (fst (claim_loot
       (fst (attack_calls two_raiders [(0, 50, 1), (1, 60, 0)]))))) = 65 \<and>
   total_of ''Scrap'' (p_inventory (player
       (fst (attack_calls two_raiders [(0, 50, 1), (1, 60, 0)])))) = 0 \<and>
   total_of ''Scrap'' (p_inventory (player (fst (claim_loot
       (fst (attack_calls two_raiders [(0, 50, 1), (1, 60, 0)])))))) = 2 \<and>
   snd (claim_loot (fst (claim_loot
       (fst (attack_calls two_raiders [(0, 50, 1), (1, 60, 0)]))))) = []"
proof -
  have run: "attack_calls two_raiders [(0, 50, 1), (1, 60, 0)] =
      (fst (attack_calls two_raiders [(0, 50, 1), (1, 60, 0)]),
       snd (attack_calls two_raiders [(0, 50, 1), (1, 60, 0)]))"
    by simp
  have calls: "[(0, 50, 1), (1, 60, 0)] \<noteq> ([] :: (int \<times> int \<times> nat) list)"
    by simp
  have won: "last (snd (attack_calls two_raiders [(0, 50, 1), (1, 60, 0)])) = Inr raid_victory"
    by (simp add: attack_enemy_def two_raiders_def new_session_def new_player_def
          make_enemy_def Let_def int_of_times_0_40_exact raid_victory_def)
  have empty: "r_enemies raid_victory = [] \<or>
      (alive two_raiders \<and> list_all (\<lambda>e. e_health e \<le> 0) (r_enemies raid_victory))"
    by (simp add: raid_victory_def)
  have before: "p_credits (player (fst (attack_calls two_raiders [(0, 50, 1), (1, 60, 0)]))) = 35 \<and>
      total_of ''Scrap'' (p_inventory (player
        (fst (attack_calls two_raiders [(0, 50, 1), (1, 60, 0)])))) = 0"
    by (simp add: attack_enemy_def two_raiders_def new_session_def new_player_def
          make_enemy_def Let_def int_of_times_0_40_exact total_of_def)
  have loot: "unclaimed_loot two_raiders = raid_loot \<and>
      loot_total ''Credits'' raid_loot = 30 \<and> loot_total ''Scrap'' raid_loot = 2 \<and>
      (\<forall>i\<in>set raid_loot. i_name i = ''Scrap'' \<longrightarrow> 0 \<le> loot_qty i)"
    by (simp add: two_raiders_def raid_loot_def loot_total_def loot_qty_def)
  from victory_clears_combat [OF run calls won empty, of "''Scrap''"] before loot
  show ?thesis
    by simp
qed

section \<open>Claiming loot twice\<close>

text \<open>
  C9. For every session, \<^verbatim>\<open>claim_loot\<close> returns the unclaimed manifest as the claimed
  list and leaves the manifest empty, and the first call gives the manifest to the
  player: the credits rise by the credits entries; every entry that is neither credits
  nor scrap becomes a new stack behind the stacks of its name; the units of a scrap name
  rise by the units of its entries (of 0 or more); nothing else of the player and of the
  session changes. A second call right after it returns an empty claimed list and leaves
  the session, with the player's credits and inventory, as the first call left it.
\<close>

theorem claim_loot_twice:
  "snd (claim_loot s) = unclaimed_loot s \<and>
   unclaimed_loot (fst (claim_loot s)) = [] \<and>
   p_credits (player (fst (claim_loot s)))
     = p_credits (player s) + loot_total ''Credits'' (unclaimed_loot s) \<and>
   (n \<noteq> ''Scrap'' \<and> n \<noteq> ''Iron Scrap'' \<longrightarrow>
      filter (\<lambda>j. i_name j = n) (p_inventory (player (fst (claim_loot s)))) =
      filter (\<lambda>j. i_name j = n) (p_inventory (player s))
      @ (if n = ''Credits'' then []
         else map loot_stack (filter (\<lambda>i. i_name i = n) (unclaimed_loot s)))) \<and>
   ((n = ''Scrap'' \<or> n = ''Iron Scrap'') \<and>
    (\<forall>i\<in>set (unclaimed_loot s). i_name i = n \<longrightarrow> 0 \<le> loot_qty i) \<longrightarrow>
      total_of n (p_inventory (player (fst (claim_loot s))))
        = total_of n (p_inventory (player s)) + loot_total n (unclaimed_loot s)) \<and>
   (player (fst (claim_loot s)))\<lparr>p_credits := p_credits (player s),
       p_inventory := p_inventory (player s)\<rparr> = player s \<and>
   (fst (claim_loot s))\<lparr>player := player s, unclaimed_loot := unclaimed_loot s\<rparr> = s \<and>
   snd (claim_loot (fst (claim_loot s))) = [] \<and>
   fst (claim_loot (fst (claim_loot s))) = fst (claim_loot s)"
  by (rule claim_loot_gives [OF refl])

text \<open>
  The theorem at the player with 7 credits, 70 scrap and one Medpack, for the manifest
  of 30 credits, 2 scrap, 0 iron scrap and a Medpack: 37 credits, 72 scrap and two
  Medpack stacks after the first call, and an empty list from the second.
\<close>

theorem claim_loot_twice_witness:
  "snd (claim_loot loot_session) = unclaimed_loot loot_session \<and>
   p_credits (player loot_session) = 7 \<and>
   p_credits (player (fst (claim_loot loot_session))) = 37 \<and>
   filter (\<lambda>j. i_name j = ''Medpack'') (p_inventory (player (fst (claim_loot loot_session))))
     = [stack ''Medpack'' 1, stack ''Medpack'' 1] \<and>
   total_of ''Scrap'' (p_inventory (player loot_session)) = 70 \<and>
   total_of ''Scrap'' (p_inventory (player (fst (claim_loot loot_session)))) = 72 \<and>
   snd (claim_loot (fst (claim_loot loot_session))) = []"
proof -
  have before: "p_credits (player loot_session) = 7 \<and>
      total_of ''Scrap'' (p_inventory (player loot_session)) = 70 \<and>
      filter (\<lambda>j. i_name j = ''Medpack'') (p_inventory (player loot_session))
        = [stack ''Medpack'' 1]"
    by (simp add: loot_session_def scrap_session_def total_of_def existing_qty_def stack_def)
  have loot: "loot_total ''Credits'' (unclaimed_loot loot_session) = 30 \<and>
      loot_total ''Scrap'' (unclaimed_loot loot_session) = 2 \<and>
      map loot_stack (filter (\<lambda>i. i_name i = ''Medpack'') (unclaimed_loot loot_session))
        = [stack ''Medpack'' 1]"
    by (simp add: loot_session_def loot_total_def loot_qty_def loot_stack_def stack_def)
  have positive: "\<forall>i\<in>set (unclaimed_loot loot_session).
      i_name i = ''Scrap'' \<longrightarrow> 0 \<le> loot_qty i"
    by (simp add: loot_session_def loot_qty_def)
  from claim_loot_twice [of loot_session "''Medpack''"]
       claim_loot_twice [of loot_session "''Scrap''"] before loot positive
  show ?thesis
    by simp
qed

end
